theory Spec2Isabelle
  imports Complex_Main "HOL-Library.Sublist"
begin

section \<open>Strings\<close>

text \<open>
  Python strings are modelled as \<^typ>\<open>string\<close>; a character stands for a code point
  below 256.  \<open>lower\<close> is \<^verbatim>\<open>str.lower()\<close> on that range: the ASCII capitals and the
  Latin-1 capitals (all of 192..222 except the multiplication sign 215) move up by 32.
  \<open>x in s\<close> on strings is the contiguous-substring test \<^const>\<open>sublist\<close>.
\<close>

definition lower_char :: "char \<Rightarrow> char" where
  "lower_char c =
     (let n = (of_char c :: nat)
      in if (65 \<le> n \<and> n \<le> 90) \<or> (192 \<le> n \<and> n \<le> 214) \<or> (216 \<le> n \<and> n \<le> 222)
         then char_of (n + 32) else c)"

definition lower :: "string \<Rightarrow> string" where
  "lower s = map lower_char s"

text \<open>
  \<^verbatim>\<open>str.strip()\<close> removes white space at both ends; below 256 the white-space characters are
  9..13, 28..32, 133 and 160.
\<close>

definition isspace :: "char \<Rightarrow> bool" where
  "isspace c =
     (let n = (of_char c :: nat)
      in (9 \<le> n \<and> n \<le> 13) \<or> (28 \<le> n \<and> n \<le> 32) \<or> n = 133 \<or> n = 160)"

definition strip :: "string \<Rightarrow> string" where
  "strip s = rev (dropWhile isspace (rev (dropWhile isspace s)))"

section \<open>Errors\<close>

text \<open>
  The exceptions that can leave a function of the module: a failed request
  (\<^verbatim>\<open>requests.get\<close>, \<^verbatim>\<open>raise_for_status\<close>), \<^verbatim>\<open>json.load\<close> on text that is not JSON,
  \<^verbatim>\<open>link_tag["href"]\<close> on a tag without that attribute, and \<^verbatim>\<open>urlparse\<close> on a link it
  rejects.  No function of the module catches any of them.
\<close>

datatype error = ConnectionError | HTTPError | JSONDecodeError | KeyError | ValueError

section \<open>Configuration\<close>

text \<open>
  The module-level constants of \<^verbatim>\<open>bike_scraper.py\<close>, gathered in a record so that
  statements can range over configurations.  The two ratios are the values of the float
  constants, as rationals.
\<close>

record config =
  SEARCH_KEYWORDS :: "string list"
  KNOWN_BIKES :: "string list"
  LOCATION_MODE :: string
  ENABLE_EBAY :: bool
  ENABLE_GUMTREE :: bool
  CLEAR_CACHE_ON_START :: bool
  EBAY_RATIO :: rat
  GUMTREE_RATIO :: rat

definition shipped :: config where
  "shipped =
     \<lparr> SEARCH_KEYWORDS = [''bike''],
       KNOWN_BIKES = [''Trek'', ''Carrera'', ''Specialised''],
       LOCATION_MODE = ''edinburgh'',
       ENABLE_EBAY = True,
       ENABLE_GUMTREE = True,
       CLEAR_CACHE_ON_START = True,
       EBAY_RATIO = 2 / 10,
       GUMTREE_RATIO = 5 / 100 \<rparr>"

section \<open>String similarity\<close>

text \<open>
  \<^verbatim>\<open>difflib.SequenceMatcher(None, a, b).ratio()\<close>, after CPython 3.11.  There is no junk
  predicate; \<open>autojunk\<close> is on, so in a \<open>b\<close> of 200 characters or more a character that occurs
  more than \<open>len(b) // 100 + 1\<close> times is left out of the index \<open>b2j\<close>.

  \<open>row\<close> is the inner loop of \<^verbatim>\<open>find_longest_match\<close> over the positions \<open>j\<close> of \<open>a[i]\<close> in
  \<open>b\<close> (\<^verbatim>\<open>continue\<close> below \<open>blo\<close>, \<^verbatim>\<open>break\<close> from \<open>bhi\<close> on), \<open>rows\<close> the outer loop over \<open>i\<close>.
  \<^verbatim>\<open>j2len.get(j-1, 0)\<close> at \<open>j = 0\<close> asks for the key \<open>-1\<close>, which is never present.
\<close>

definition popular :: "string \<Rightarrow> char \<Rightarrow> bool" where
  "popular b elt \<longleftrightarrow> 200 \<le> length b \<and> length b div 100 + 1 < count_list b elt"

definition b2j :: "string \<Rightarrow> char \<Rightarrow> nat list" where
  "b2j b elt = (if popular b elt then [] else filter (\<lambda>j. b ! j = elt) [0..<length b])"

type_synonym match = "nat \<times> nat \<times> nat"

fun row :: "nat \<Rightarrow> nat \<Rightarrow> nat \<Rightarrow> (nat \<rightharpoonup> nat) \<Rightarrow> nat list \<Rightarrow> (nat \<rightharpoonup> nat) \<times> match
            \<Rightarrow> (nat \<rightharpoonup> nat) \<times> match" where
  "row i blo bhi j2len [] st = st"
| "row i blo bhi j2len (j # js) (newj2len, besti, bestj, bestsize) =
     (if j < blo then row i blo bhi j2len js (newj2len, besti, bestj, bestsize)
      else if bhi \<le> j then (newj2len, besti, bestj, bestsize)
      else
        let k = (if j = 0 then 0 else case j2len (j - 1) of None \<Rightarrow> 0 | Some v \<Rightarrow> v) + 1
        in if bestsize < k
           then row i blo bhi j2len js (newj2len(j \<mapsto> k), i + 1 - k, j + 1 - k, k)
           else row i blo bhi j2len js (newj2len(j \<mapsto> k), besti, bestj, bestsize))"

function rows :: "string \<Rightarrow> string \<Rightarrow> nat \<Rightarrow> nat \<Rightarrow> nat \<Rightarrow> nat \<Rightarrow> (nat \<rightharpoonup> nat) \<times> match \<Rightarrow> match" where
  "rows a b ahi blo bhi i (j2len, best) =
     (if i < ahi
      then rows a b ahi blo bhi (i + 1) (row i blo bhi j2len (b2j b (a ! i)) (Map.empty, best))
      else best)"
  by pat_completeness auto
termination
  by (relation "measure (\<lambda>(a, b, ahi, blo, bhi, i, st). ahi - i)") auto

function extend_left :: "string \<Rightarrow> string \<Rightarrow> nat \<Rightarrow> nat \<Rightarrow> match \<Rightarrow> match" where
  "extend_left a b alo blo (besti, bestj, bestsize) =
     (if alo < besti \<and> blo < bestj \<and> a ! (besti - 1) = b ! (bestj - 1)
      then extend_left a b alo blo (besti - 1, bestj - 1, bestsize + 1)
      else (besti, bestj, bestsize))"
  by pat_completeness auto
termination
  by (relation "measure (\<lambda>(a, b, alo, blo, besti, bestj, bestsize). besti)") auto

function extend_right :: "string \<Rightarrow> string \<Rightarrow> nat \<Rightarrow> nat \<Rightarrow> match \<Rightarrow> match" where
  "extend_right a b ahi bhi (besti, bestj, bestsize) =
     (if besti + bestsize < ahi \<and> bestj + bestsize < bhi
         \<and> a ! (besti + bestsize) = b ! (bestj + bestsize)
      then extend_right a b ahi bhi (besti, bestj, bestsize + 1)
      else (besti, bestj, bestsize))"
  by pat_completeness auto
termination
  by (relation "measure (\<lambda>(a, b, ahi, bhi, besti, bestj, bestsize). ahi - (besti + bestsize))") auto

text \<open>
  The two loops that follow in the library absorb junk elements next to the match; with no junk
  predicate the junk set is empty and they do nothing.
\<close>

definition find_longest_match :: "string \<Rightarrow> string \<Rightarrow> nat \<Rightarrow> nat \<Rightarrow> nat \<Rightarrow> nat \<Rightarrow> match" where
  "find_longest_match a b alo ahi blo bhi =
     extend_right a b ahi bhi
       (extend_left a b alo blo (rows a b ahi blo bhi alo (Map.empty, alo, blo, 0)))"

text \<open>
  A match lies inside the window of \<open>a\<close> it was searched in; the queue loop below terminates
  because of that.
\<close>

lemma row_bound:
  "row i blo bhi j2len js (newj2len, besti, bestj, bestsize) = (m, besti', bestj', bestsize') \<Longrightarrow>
   \<forall>j v. j2len j = Some v \<longrightarrow> v \<le> n \<Longrightarrow>
   \<forall>j v. newj2len j = Some v \<longrightarrow> v \<le> Suc n \<Longrightarrow>
   i = alo + n \<Longrightarrow> alo \<le> besti \<Longrightarrow> besti + bestsize \<le> alo + n + 1 \<Longrightarrow>
   (\<forall>j v. m j = Some v \<longrightarrow> v \<le> Suc n) \<and> alo \<le> besti' \<and> besti' + bestsize' \<le> alo + n + 1"
proof (induction js arbitrary: newj2len besti bestj bestsize)
  case Nil
  then show ?case by simp
next
  case (Cons j js)
  let ?k = "(if j = 0 then 0 else case j2len (j - 1) of None \<Rightarrow> 0 | Some v \<Rightarrow> v) + 1"
  have k: "?k \<le> Suc n" "0 < ?k"
    using Cons.prems(2) by (auto split: option.splits)
  show ?case
  proof (cases "j < blo")
    case True
    with Cons show ?thesis by simp
  next
    case nlo: False
    show ?thesis
    proof (cases "bhi \<le> j")
      case True
      with nlo Cons.prems show ?thesis by simp
    next
      case False
      have upd: "\<forall>j' v. (newj2len(j \<mapsto> ?k)) j' = Some v \<longrightarrow> v \<le> Suc n"
        using Cons.prems(3) k by auto
      show ?thesis
      proof (cases "bestsize < ?k")
        case True
        with nlo False Cons.prems(1)
        have r: "row i blo bhi j2len js (newj2len(j \<mapsto> ?k), i + 1 - ?k, j + 1 - ?k, ?k)
                 = (m, besti', bestj', bestsize')"
          by (simp add: Let_def)
        show ?thesis
          by (rule Cons.IH [OF r Cons.prems(2) upd Cons.prems(4)])
             (use k Cons.prems(4) in auto)
      next
        case nb: False
        with nlo False Cons.prems(1)
        have r: "row i blo bhi j2len js (newj2len(j \<mapsto> ?k), besti, bestj, bestsize)
                 = (m, besti', bestj', bestsize')"
          by (simp add: Let_def)
        show ?thesis
          by (rule Cons.IH [OF r Cons.prems(2) upd Cons.prems(4) Cons.prems(5) Cons.prems(6)])
      qed
    qed
  qed
qed

lemma rows_bound:
  "rows a b ahi blo bhi i (j2len, besti, bestj, bestsize) = (besti', bestj', bestsize') \<Longrightarrow>
   \<forall>j v. j2len j = Some v \<longrightarrow> v \<le> i - alo \<Longrightarrow>
   alo \<le> i \<Longrightarrow> i \<le> ahi \<Longrightarrow> alo \<le> besti \<Longrightarrow> besti + bestsize \<le> i \<Longrightarrow>
   alo \<le> besti' \<and> besti' + bestsize' \<le> ahi"
proof (induction a b ahi blo bhi i "(j2len, besti, bestj, bestsize)"
       arbitrary: j2len besti bestj bestsize rule: rows.induct)
  case (1 a b ahi blo bhi i j2len besti bestj bestsize)
  show ?case
  proof (cases "i < ahi")
    case False
    with "1.prems" show ?thesis by simp
  next
    case True
    obtain m bi bj bs where
      r: "row i blo bhi j2len (b2j b (a ! i)) (Map.empty, besti, bestj, bestsize) = (m, bi, bj, bs)"
      by (metis prod_cases4)
    have i: "i = alo + (i - alo)" using "1.prems"(3) by simp
    have rb: "(\<forall>j v. m j = Some v \<longrightarrow> v \<le> Suc (i - alo)) \<and> alo \<le> bi \<and> bi + bs \<le> alo + (i - alo) + 1"
      by (rule row_bound [OF r "1.prems"(2) _ i "1.prems"(5)]) (use "1.prems" in auto)
    have next_eq: "rows a b ahi blo bhi (i + 1) (m, bi, bj, bs) = (besti', bestj', bestsize')"
      using "1.prems"(1) True r by simp
    have "Suc (i - alo) = i + 1 - alo" using "1.prems"(3) by simp
    with rb have m: "\<forall>j v. m j = Some v \<longrightarrow> v \<le> i + 1 - alo" by simp
    show ?thesis
      by (rule "1.hyps" [OF True r next_eq m])
         (use rb True "1.prems" in auto)
  qed
qed

lemma extend_left_bound:
  "extend_left a b alo blo (besti, bestj, bestsize) = (i, j, k) \<Longrightarrow>
   alo \<le> besti \<Longrightarrow> alo \<le> i \<and> i + k = besti + bestsize \<and> bestsize \<le> k"
proof (induction a b alo blo "(besti, bestj, bestsize)" arbitrary: besti bestj bestsize
       rule: extend_left.induct)
  case (1 a b alo blo besti bestj bestsize)
  show ?case
  proof (cases "alo < besti \<and> blo < bestj \<and> a ! (besti - 1) = b ! (bestj - 1)")
    case True
    with "1.prems" have e: "extend_left a b alo blo (besti - 1, bestj - 1, bestsize + 1) = (i, j, k)"
      by simp
    from True have "alo \<le> besti - 1" by arith
    from "1.hyps" [OF True e this] True show ?thesis by auto
  next
    case False
    with "1.prems" show ?thesis by auto
  qed
qed

lemma extend_right_bound:
  "extend_right a b ahi bhi (besti, bestj, bestsize) = (i, j, k) \<Longrightarrow>
   besti + bestsize \<le> ahi \<Longrightarrow> i = besti \<and> i + k \<le> ahi \<and> bestsize \<le> k"
proof (induction a b ahi bhi "(besti, bestj, bestsize)" arbitrary: besti bestj bestsize
       rule: extend_right.induct)
  case (1 a b ahi bhi besti bestj bestsize)
  show ?case
  proof (cases "besti + bestsize < ahi \<and> bestj + bestsize < bhi
         \<and> a ! (besti + bestsize) = b ! (bestj + bestsize)")
    case True
    with "1.prems" have e: "extend_right a b ahi bhi (besti, bestj, bestsize + 1) = (i, j, k)"
      by simp
    from True have "besti + (bestsize + 1) \<le> ahi" by arith
    from "1.hyps" [OF True e this] show ?thesis by auto
  next
    case False
    with "1.prems" show ?thesis by auto
  qed
qed

lemma find_longest_match_bound:
  assumes "find_longest_match a b alo ahi blo bhi = (i, j, k)" and "alo \<le> ahi"
  shows "alo \<le> i \<and> i + k \<le> ahi"
proof -
  obtain i1 j1 k1 where r: "rows a b ahi blo bhi alo (Map.empty, alo, blo, 0) = (i1, j1, k1)"
    by (metis prod_cases3)
  have b1: "alo \<le> i1 \<and> i1 + k1 \<le> ahi"
    by (rule rows_bound [OF r]) (use assms(2) in auto)
  obtain i2 j2 k2 where l: "extend_left a b alo blo (i1, j1, k1) = (i2, j2, k2)"
    by (metis prod_cases3)
  from extend_left_bound [OF l] b1 have b2: "alo \<le> i2 \<and> i2 + k2 \<le> ahi" by auto
  from assms(1) r l have e: "extend_right a b ahi bhi (i2, j2, k2) = (i, j, k)"
    by (simp add: find_longest_match_def)
  from extend_right_bound [OF e] b2 show ?thesis by auto
qed


lemma find_longest_match_empty:
  assumes "find_longest_match a b alo ahi blo bhi = (i, j, k)" and "ahi \<le> alo"
  shows "k = 0"
  using assms by (simp add: find_longest_match_def)

lemma find_longest_match_nonzero:
  assumes "find_longest_match a b alo ahi blo bhi = (i, j, k)" and "k \<noteq> 0"
  shows "alo \<le> i \<and> i + k \<le> ahi"
proof -
  have "alo \<le> ahi"
  proof (rule ccontr)
    assume "\<not> alo \<le> ahi"
    then have "ahi \<le> alo" by simp
    from find_longest_match_empty [OF assms(1) this] assms(2) show False by simp
  qed
  from find_longest_match_bound [OF assms(1) this] show ?thesis .
qed

text \<open>
  \<^verbatim>\<open>get_matching_blocks\<close>: the work queue is a stack, popped from the end; the head of the list
  is the top.  The library then sorts the blocks, merges adjacent ones and appends a block of
  size 0; none of that changes the sum of the sizes, which is all \<^verbatim>\<open>ratio\<close> reads.
\<close>

function matching_blocks ::
  "string \<Rightarrow> string \<Rightarrow> (nat \<times> nat \<times> nat \<times> nat) list \<Rightarrow> match list \<Rightarrow> match list" where
  "matching_blocks a b [] blocks = blocks"
| "matching_blocks a b ((alo, ahi, blo, bhi) # queue) blocks =
     (case find_longest_match a b alo ahi blo bhi of (i, j, k) \<Rightarrow>
        if k = 0 then matching_blocks a b queue blocks
        else matching_blocks a b
               ((if i + k < ahi \<and> j + k < bhi then [(i + k, ahi, j + k, bhi)] else [])
                @ (if alo < i \<and> blo < j then [(alo, i, blo, j)] else [])
                @ queue)
               (blocks @ [(i, j, k)]))"
  by pat_completeness auto
termination
  apply (relation "measure (\<lambda>(a, b, queue, blocks).
         sum_list (map (\<lambda>(alo, ahi, blo, bhi). 2 * (ahi - alo) + 1) queue))")
    apply simp
   apply simp
  apply (auto dest!: find_longest_match_nonzero [OF sym])
  done

definition get_matching_blocks :: "string \<Rightarrow> string \<Rightarrow> match list" where
  "get_matching_blocks a b = matching_blocks a b [(0, length a, 0, length b)] []"

text \<open>
  \<^verbatim>\<open>ratio()\<close> is \<^verbatim>\<open>2.0 * matches / length\<close>, or \<open>1.0\<close> when both strings are empty.  The
  model returns the exact quotient; the float is its rounding, and for strings shorter than
  \<open>2^50\<close> characters the comparisons with the shipped cutoffs \<open>0.2\<close> and \<open>0.05\<close> come out the
  same on both.
\<close>

definition ratio :: "string \<Rightarrow> string \<Rightarrow> rat" where
  "ratio a b =
     (let matches = sum_list (map (\<lambda>(i, j, k). k) (get_matching_blocks a b));
          total = length a + length b
      in if total \<noteq> 0 then 2 * of_nat matches / of_nat total else 1)"

section \<open>Matching\<close>

text \<open>
  \<^verbatim>\<open>is_match(title, website=None)\<close>.  \<open>known_loop\<close> is the loop over \<^verbatim>\<open>KNOWN_BIKES\<close> and
  \<open>keyword_loop\<close> the loop over \<^verbatim>\<open>SEARCH_KEYWORDS\<close>; each yields \<open>True\<close> when the loop returns
  from inside.  The title they receive is already lower-cased.
\<close>

fun known_loop :: "config \<Rightarrow> string \<Rightarrow> string option \<Rightarrow> string list \<Rightarrow> bool" where
  "known_loop cfg title website [] = False"
| "known_loop cfg title website (known # rest) =
     (let r = ratio title (lower known);
          RATIO = (if website = Some ''ebay'' then EBAY_RATIO cfg else GUMTREE_RATIO cfg)
      in if r > RATIO then True else known_loop cfg title website rest)"

fun keyword_loop :: "string \<Rightarrow> string list \<Rightarrow> bool" where
  "keyword_loop title [] = False"
| "keyword_loop title (keyword # rest) =
     (if sublist (lower keyword) title then True else keyword_loop title rest)"

definition is_match :: "config \<Rightarrow> string \<Rightarrow> string option \<Rightarrow> bool" where
  "is_match cfg title website =
     (let title = lower title
      in if known_loop cfg title website (KNOWN_BIKES cfg) then True
         else if website = Some ''gumtree'' \<and> keyword_loop title (SEARCH_KEYWORDS cfg) then True
         else False)"

section \<open>Location filter\<close>

definition is_nearby :: "config \<Rightarrow> string \<Rightarrow> bool" where
  "is_nearby cfg location =
     (if LOCATION_MODE cfg = ''anywhere'' then True
      else sublist ''edinburgh'' (lower location))"

section \<open>Link normalisation\<close>

text \<open>
  \<^verbatim>\<open>urlparse\<close> and \<^verbatim>\<open>urlunparse\<close> of \<^verbatim>\<open>urllib.parse\<close>, after CPython 3.11, on \<^verbatim>\<open>str\<close>
  arguments with the default empty \<^verbatim>\<open>scheme\<close> and \<^verbatim>\<open>allow_fragments=True\<close>.  A \<^verbatim>\<open>find\<close>
  followed by the two slices around the index is written with \<open>takeWhile\<close> and \<open>dropWhile\<close>.

  Two checks of the library on the network location are not modelled and stand as the
  parameter \<open>netloc_ok\<close>: \<^verbatim>\<open>_check_bracketed_host\<close> (the text between brackets is an IPv6 or
  IPvFuture address) and \<^verbatim>\<open>_checknetloc\<close> (the NFKC form of a non-ASCII location has none of
  \<^verbatim>\<open>/?#@:\<close>).  Both raise \<^verbatim>\<open>ValueError\<close>, as the bracket test before them does.
\<close>

definition scheme_chars :: string where
  "scheme_chars = ''abcdefghijklmnopqrstuvwxyzABCDEFGHIJKLMNOPQRSTUVWXYZ0123456789+-.''"

definition uses_netloc :: "string list" where
  "uses_netloc = [[], ''ftp'', ''http'', ''gopher'', ''nntp'', ''telnet'',
                  ''imap'', ''wais'', ''file'', ''mms'', ''https'', ''shttp'',
                  ''snews'', ''prospero'', ''rtsp'', ''rtsps'', ''rtspu'', ''rsync'',
                  ''svn'', ''svn+ssh'', ''sftp'', ''nfs'', ''git'', ''git+ssh'',
                  ''ws'', ''wss'']"

definition uses_params :: "string list" where
  "uses_params = [[], ''ftp'', ''hdl'', ''prospero'', ''http'', ''imap'',
                  ''https'', ''shttp'', ''rtsp'', ''rtsps'', ''rtspu'', ''sip'',
                  ''sips'', ''mms'', ''sftp'', ''tel'']"

definition c0_control_or_space :: "char \<Rightarrow> bool" where
  "c0_control_or_space c \<longleftrightarrow> (of_char c :: nat) \<le> 32"

definition unsafe_byte :: "char \<Rightarrow> bool" where
  "unsafe_byte c \<longleftrightarrow> c = CHR 0x09 \<or> c = CHR 0x0D \<or> c = CHR 0x0A"

definition ascii_alpha :: "char \<Rightarrow> bool" where
  "ascii_alpha c =
     (let n = (of_char c :: nat) in (65 \<le> n \<and> n \<le> 90) \<or> (97 \<le> n \<and> n \<le> 122))"

definition netloc_delim :: "char \<Rightarrow> bool" where
  "netloc_delim c \<longleftrightarrow> c = CHR ''/'' \<or> c = CHR ''?'' \<or> c = CHR ''#''"

text \<open>\<open>split_scheme\<close>: the block of \<^verbatim>\<open>urlsplit\<close> from \<^verbatim>\<open>i = url.find(':')\<close> on.\<close>

definition split_scheme :: "string \<Rightarrow> string \<times> string" where
  "split_scheme url =
     (let head = takeWhile (\<lambda>c. c \<noteq> CHR '':'') url
      in if CHR '':'' \<in> set url \<and> head \<noteq> [] \<and> ascii_alpha (hd url)
            \<and> (\<forall>c\<in>set head. c \<in> set scheme_chars)
         then (lower head, tl (dropWhile (\<lambda>c. c \<noteq> CHR '':'') url))
         else ([], url))"

text \<open>\<open>split_at c url\<close>: \<^verbatim>\<open>url.split(c, 1)\<close> when \<open>c\<close> occurs in \<open>url\<close>, else \<open>url\<close> and nothing.\<close>

definition split_at :: "char \<Rightarrow> string \<Rightarrow> string \<times> string" where
  "split_at c url =
     (if c \<in> set url
      then (takeWhile (\<lambda>x. x \<noteq> c) url, tl (dropWhile (\<lambda>x. x \<noteq> c) url))
      else (url, []))"

definition urlsplit ::
  "(string \<Rightarrow> bool) \<Rightarrow> string \<Rightarrow> error + (string \<times> string \<times> string \<times> string \<times> string)" where
  "urlsplit netloc_ok url0 =
     (let url1 = dropWhile c0_control_or_space url0;
          url2 = filter (\<lambda>c. \<not> unsafe_byte c) url1;
          (scheme, url3) = split_scheme url2;
          (netloc, url4) =
             (if take 2 url3 = ''//''
              then (takeWhile (\<lambda>c. \<not> netloc_delim c) (drop 2 url3),
                    dropWhile (\<lambda>c. \<not> netloc_delim c) (drop 2 url3))
              else ([], url3))
      in if take 2 url3 = ''//''
            \<and> ((CHR ''['' \<in> set netloc \<and> CHR '']'' \<notin> set netloc)
                 \<or> (CHR '']'' \<in> set netloc \<and> CHR ''['' \<notin> set netloc))
         then Inl ValueError
         else if \<not> netloc_ok netloc then Inl ValueError
         else
           let (url5, fragment) = split_at (CHR ''#'') url4;
               (url6, query) = split_at (CHR ''?'') url5
           in Inr (scheme, netloc, url6, query, fragment))"

text \<open>
  \<^verbatim>\<open>_splitparams\<close>: the search for \<^verbatim>\<open>;\<close> starts at the last \<^verbatim>\<open>/\<close>, so it looks at the last
  segment of the path only.  The caller has checked that the path holds a \<^verbatim>\<open>;\<close>.
\<close>

definition splitparams :: "string \<Rightarrow> string \<times> string" where
  "splitparams url =
     (if CHR ''/'' \<in> set url
      then
        let seg = rev (takeWhile (\<lambda>c. c \<noteq> CHR ''/'') (rev url));
            pre = take (length url - length seg) url
        in if CHR '';'' \<notin> set seg then (url, [])
           else (pre @ takeWhile (\<lambda>c. c \<noteq> CHR '';'') seg,
                 tl (dropWhile (\<lambda>c. c \<noteq> CHR '';'') seg))
      else (takeWhile (\<lambda>c. c \<noteq> CHR '';'') url, tl (dropWhile (\<lambda>c. c \<noteq> CHR '';'') url)))"

definition urlparse ::
  "(string \<Rightarrow> bool) \<Rightarrow> string
     \<Rightarrow> error + (string \<times> string \<times> string \<times> string \<times> string \<times> string)" where
  "urlparse netloc_ok url0 =
     (case urlsplit netloc_ok url0 of
        Inl e \<Rightarrow> Inl e
      | Inr (scheme, netloc, url, query, fragment) \<Rightarrow>
          let (url', params) =
                 (if scheme \<in> set uses_params \<and> CHR '';'' \<in> set url then splitparams url
                  else (url, []))
          in Inr (scheme, netloc, url', params, query, fragment))"

definition urlunsplit :: "string \<times> string \<times> string \<times> string \<times> string \<Rightarrow> string" where
  "urlunsplit components =
     (case components of (scheme, netloc, url0, query, fragment) \<Rightarrow>
        let url1 =
              (if netloc \<noteq> [] \<or> (scheme \<noteq> [] \<and> scheme \<in> set uses_netloc) \<or> take 2 url0 = ''//''
               then ''//'' @ netloc @ (if url0 \<noteq> [] \<and> take 1 url0 \<noteq> ''/'' then ''/'' @ url0 else url0)
               else url0);
            url2 = (if scheme \<noteq> [] then scheme @ '':'' @ url1 else url1);
            url3 = (if query \<noteq> [] then url2 @ ''?'' @ query else url2)
        in if fragment \<noteq> [] then url3 @ ''#'' @ fragment else url3)"

definition urlunparse ::
  "string \<times> string \<times> string \<times> string \<times> string \<times> string \<Rightarrow> string" where
  "urlunparse components =
     (case components of (scheme, netloc, url, params, query, fragment) \<Rightarrow>
        urlunsplit (scheme, netloc, (if params \<noteq> [] then url @ '';'' @ params else url),
                    query, fragment))"

definition normalize_ebay_url :: "(string \<Rightarrow> bool) \<Rightarrow> string \<Rightarrow> error + string" where
  "normalize_ebay_url netloc_ok link =
     (case urlparse netloc_ok link of
        Inl e \<Rightarrow> Inl e
      | Inr (scheme, netloc, url, params, query, fragment) \<Rightarrow>
          Inr (urlunparse (scheme, netloc, url, params, [], [])))"


section \<open>Seen stores\<close>

text \<open>
  The two files under \<^verbatim>\<open>~/.cache\<close>; \<open>None\<close> is a path that does not exist.

  \<^verbatim>\<open>seen_ebay.json\<close> is read by \<^verbatim>\<open>json.load\<close> and written by \<^verbatim>\<open>json.dump\<close>, and is modelled
  by what \<^verbatim>\<open>json.load\<close> makes of it: \<open>NotJson\<close> is any text the decoder rejects (an empty
  or truncated file among them), \<open>StringArray s\<close> is a JSON array of strings with the set
  \<open>s\<close> of elements, which is what \<^verbatim>\<open>save_ebay_seen\<close> writes and all that \<^verbatim>\<open>set(...)\<close> keeps of
  it.  JSON documents of another shape are never written by the module and are left out.

  \<^verbatim>\<open>seen_gumtree.txt\<close> is the text of the file.
\<close>

datatype json_file = NotJson | StringArray "string set"

record files =
  SEEN_EBAY :: "json_file option"
  SEEN_GUMTREE :: "string option"

definition load_ebay_seen :: "files \<Rightarrow> error + string set" where
  "load_ebay_seen fs =
     (case SEEN_EBAY fs of
        Some NotJson \<Rightarrow> Inl JSONDecodeError
      | Some (StringArray s) \<Rightarrow> Inr s
      | None \<Rightarrow> Inr {})"

definition save_ebay_seen :: "string set \<Rightarrow> files \<Rightarrow> files" where
  "save_ebay_seen seen fs = fs\<lparr>SEEN_EBAY := Some (StringArray seen)\<rparr>"

text \<open>
  Reading a text file yields its lines, each with its line end.  With universal newlines
  a carriage return, alone or before a line feed, reads as a line feed.
\<close>

fun universal_newlines :: "string \<Rightarrow> string" where
  "universal_newlines [] = []"
| "universal_newlines [c] = (if c = CHR 0x0D then [CHR 0x0A] else [c])"
| "universal_newlines (c # d # cs) =
     (if c = CHR 0x0D \<and> d = CHR 0x0A then CHR 0x0A # universal_newlines cs
      else if c = CHR 0x0D then CHR 0x0A # universal_newlines (d # cs)
      else c # universal_newlines (d # cs))"

fun split_lines :: "string \<Rightarrow> string \<Rightarrow> string list" where
  "split_lines cur [] = (if cur = [] then [] else [cur])"
| "split_lines cur (c # cs) =
     (if c = CHR 0x0A then (cur @ [c]) # split_lines [] cs else split_lines (cur @ [c]) cs)"

definition readlines :: "string \<Rightarrow> string list" where
  "readlines text = split_lines [] (universal_newlines text)"

definition load_gumtree_seen :: "files \<Rightarrow> string set" where
  "load_gumtree_seen fs =
     (case SEEN_GUMTREE fs of
        Some text \<Rightarrow> set (map strip (readlines text))
      | None \<Rightarrow> {})"

text \<open>Mode \<^verbatim>\<open>"a"\<close> creates the file when it is missing.\<close>

definition mark_gumtree_seen :: "string \<Rightarrow> files \<Rightarrow> files" where
  "mark_gumtree_seen url fs =
     fs\<lparr>SEEN_GUMTREE :=
          Some ((case SEEN_GUMTREE fs of Some text \<Rightarrow> text | None \<Rightarrow> []) @ url @ [CHR 0x0A])\<rparr>"

definition clear_cache :: "files \<Rightarrow> files" where
  "clear_cache fs = fs\<lparr>SEEN_EBAY := None, SEEN_GUMTREE := None\<rparr>"

section \<open>Pages and program state\<close>

text \<open>
  An element of \<^verbatim>\<open>soup.select(".s-item")\<close>, as far as the loop reads it.  \<open>link_tag\<close> is
  \<open>None\<close> when \<^verbatim>\<open>select_one("a.s-item__link")\<close> finds nothing, \<open>Some None\<close> when the tag has no
  \<^verbatim>\<open>href\<close>, else the \<^verbatim>\<open>href\<close>; \<open>title_tag\<close> and \<open>loc_tag\<close> are the \<^verbatim>\<open>.text\<close> of the tags when
  they are found.
\<close>

record ebay_item =
  link_tag :: "string option option"
  title_tag :: "string option"
  loc_tag :: "string option"

text \<open>An element of \<^verbatim>\<open>soup.find_all("a", href=True)\<close>.\<close>

record anchor =
  href :: string
  aria_label :: "string option"
  text_of :: string

text \<open>An entry of the list \<^verbatim>\<open>parse_gumtree\<close> returns, with its keys \<^verbatim>\<open>"title"\<close> and \<^verbatim>\<open>"link"\<close>.\<close>

record listing =
  listing_title :: string
  listing_link :: string

text \<open>
  What the two requests bring back: the exception raised by \<^verbatim>\<open>requests.get\<close> or
  \<^verbatim>\<open>raise_for_status\<close>, or the page, given by the elements the parser selects from it.
\<close>

record web =
  ebay_page :: "error + ebay_item list"
  gumtree_page :: "error + anchor list"

text \<open>The files and the two module-level lists.\<close>

record state =
  disk :: files
  ebay_matches :: "(string \<times> string) list"
  gumtree_matches :: "(string \<times> string) list"

section \<open>eBay\<close>

text \<open>
  The loop of \<^verbatim>\<open>process_ebay\<close>, on \<open>new_seen\<close> and \<^verbatim>\<open>ebay_matches\<close>.  \<open>seen\<close> is the set loaded
  before the loop; the loop tests it and never changes it.
\<close>

fun ebay_loop ::
  "(string \<Rightarrow> bool) \<Rightarrow> config \<Rightarrow> string set \<Rightarrow> ebay_item list
     \<Rightarrow> string set \<times> (string \<times> string) list \<Rightarrow> error + string set \<times> (string \<times> string) list" where
  "ebay_loop netloc_ok cfg seen [] acc = Inr acc"
| "ebay_loop netloc_ok cfg seen (item # rest) (new_seen, matches) =
     (if link_tag item = None \<or> title_tag item = None
      then ebay_loop netloc_ok cfg seen rest (new_seen, matches)
      else
        case the (link_tag item) of
          None \<Rightarrow> Inl KeyError
        | Some h \<Rightarrow>
            (case normalize_ebay_url netloc_ok h of
               Inl e \<Rightarrow> Inl e
             | Inr link \<Rightarrow>
                 let title = strip (the (title_tag item));
                     location = (case loc_tag item of Some t \<Rightarrow> strip t | None \<Rightarrow> ''Unknown'')
                 in if link \<in> seen then ebay_loop netloc_ok cfg seen rest (new_seen, matches)
                    else
                      let matched = is_match cfg title (Some ''ebay'');
                          located = is_nearby cfg location
                      in ebay_loop netloc_ok cfg seen rest
                           (insert link new_seen,
                            if matched \<and> located then matches @ [(drop 11 title, link)]
                            else matches)))"

text \<open>
  When an exception leaves \<^verbatim>\<open>process_ebay\<close> nothing has been written to the file, and the
  process ends with it.
\<close>

definition process_ebay :: "(string \<Rightarrow> bool) \<Rightarrow> config \<Rightarrow> web \<Rightarrow> state \<Rightarrow> error + state" where
  "process_ebay netloc_ok cfg w st =
     (case ebay_page w of
        Inl e \<Rightarrow> Inl e
      | Inr results \<Rightarrow>
          (case load_ebay_seen (disk st) of
             Inl e \<Rightarrow> Inl e
           | Inr seen \<Rightarrow>
               (case ebay_loop netloc_ok cfg seen results (seen, ebay_matches st) of
                  Inl e \<Rightarrow> Inl e
                | Inr (new_seen, matches) \<Rightarrow>
                    Inr (st\<lparr>disk := save_ebay_seen new_seen (disk st), ebay_matches := matches\<rparr>))))"

section \<open>Gumtree\<close>

fun parse_gumtree :: "anchor list \<Rightarrow> listing list" where
  "parse_gumtree [] = []"
| "parse_gumtree (item # items) =
     (let title0 = strip (case aria_label item of Some t \<Rightarrow> t | None \<Rightarrow> [])
      in if href item = [] then parse_gumtree items
         else if \<not> prefix ''/p/'' (href item) then parse_gumtree items
         else
           let full_link = ''https://www.gumtree.com'' @ href item;
               title1 = (if title0 = [] then strip (text_of item) else title0)
           in if title1 \<noteq> [] \<and> sublist ''/p/'' (href item)
              then \<lparr>listing_title = title1, listing_link = full_link\<rparr> # parse_gumtree items
              else parse_gumtree items)"

text \<open>
  The loop of \<^verbatim>\<open>process_gumtree\<close>, on the files and \<^verbatim>\<open>gumtree_matches\<close>.  \<open>seen\<close> is the set
  loaded before the loop; the lines appended during the loop do not enter it.
\<close>

fun gumtree_loop ::
  "config \<Rightarrow> string set \<Rightarrow> listing list \<Rightarrow> files \<times> (string \<times> string) list
     \<Rightarrow> files \<times> (string \<times> string) list" where
  "gumtree_loop cfg seen [] acc = acc"
| "gumtree_loop cfg seen (item # rest) (fs, matches) =
     (if listing_link item \<in> seen then gumtree_loop cfg seen rest (fs, matches)
      else gumtree_loop cfg seen rest
             (mark_gumtree_seen (listing_link item) fs,
              if is_match cfg (listing_title item) (Some ''gumtree'')
              then matches @ [(listing_title item, listing_link item)] else matches))"

definition process_gumtree :: "config \<Rightarrow> web \<Rightarrow> state \<Rightarrow> error + state" where
  "process_gumtree cfg w st =
     (case gumtree_page w of
        Inl e \<Rightarrow> Inl e
      | Inr anchors \<Rightarrow>
          let results = parse_gumtree anchors;
              seen = load_gumtree_seen (disk st);
              (fs, matches) = gumtree_loop cfg seen results (disk st, gumtree_matches st)
          in Inr (st\<lparr>disk := fs, gumtree_matches := matches\<rparr>))"

section \<open>Main\<close>

text \<open>
  A run of \<^verbatim>\<open>main\<close> from the files \<open>fs\<close>: the exception that ended it, if any, what it
  printed (one entry for each \<^verbatim>\<open>print\<close>), and the files it leaves.
\<close>

record outcome =
  raised :: "error option"
  printed :: "string list"
  left :: files

definition report :: "string \<Rightarrow> (string \<times> string) list \<Rightarrow> string list" where
  "report heading matches =
     (if matches \<noteq> [] then [heading] else [])
     @ concat (map (\<lambda>(t, l). [t, l @ [CHR 0x0A]]) matches)"

definition main :: "(string \<Rightarrow> bool) \<Rightarrow> config \<Rightarrow> web \<Rightarrow> files \<Rightarrow> outcome" where
  "main netloc_ok cfg w fs =
     (let fs0 = (if CLEAR_CACHE_ON_START cfg then clear_cache fs else fs);
          st0 = \<lparr>disk = fs0, ebay_matches = [], gumtree_matches = []\<rparr>
      in case (if ENABLE_EBAY cfg then process_ebay netloc_ok cfg w st0 else Inr st0) of
           Inl e \<Rightarrow> \<lparr>raised = Some e, printed = [], left = fs0\<rparr>
         | Inr st1 \<Rightarrow>
             (case (if ENABLE_GUMTREE cfg then process_gumtree cfg w st1 else Inr st1) of
                Inl e \<Rightarrow> \<lparr>raised = Some e, printed = [], left = disk st1\<rparr>
              | Inr st2 \<Rightarrow>
                  \<lparr>raised = None,
                   printed = report ''All ebay matches!'' (ebay_matches st2)
                             @ report ''All gumtree matches!'' (gumtree_matches st2),
                   left = disk st2\<rparr>))"

section \<open>What a run of the eBay loop emits\<close>

text \<open>
  A description of the loop to compare it with.  \<open>complete_listing\<close> is what the loop reads
  off an element that has both tags, a \<^verbatim>\<open>href\<close> and a link that normalises: the stripped
  title, the normalised link and the location.  \<open>emitted\<close> keeps the listings that are not in
  the loaded set, match on the title as read and pass the location filter, and only then
  cuts the first 11 characters off the title.
\<close>

definition complete_listing ::
  "(string \<Rightarrow> bool) \<Rightarrow> ebay_item \<Rightarrow> (string \<times> string \<times> string) option" where
  "complete_listing netloc_ok item =
     (case (link_tag item, title_tag item) of
        (Some (Some h), Some t) \<Rightarrow>
          (case normalize_ebay_url netloc_ok h of
             Inr l \<Rightarrow> Some (strip t, l, case loc_tag item of Some x \<Rightarrow> strip x | None \<Rightarrow> ''Unknown'')
           | Inl e \<Rightarrow> None)
      | _ \<Rightarrow> None)"

definition emitted ::
  "config \<Rightarrow> string set \<Rightarrow> (string \<times> string \<times> string) list \<Rightarrow> (string \<times> string) list" where
  "emitted cfg seen ls =
     map (\<lambda>(t, l, loc). (drop 11 t, l))
       (filter (\<lambda>(t, l, loc). l \<notin> seen \<and> is_match cfg t (Some ''ebay'') \<and> is_nearby cfg loc) ls)"

section \<open>Properties\<close>

lemma lower_Unknown: "lower ''Unknown'' = ''unknown''"
  by code_simp

lemma lower_Edinburgh_UK: "lower ''Edinburgh, UK'' = ''edinburgh, uk''"
  by code_simp

text \<open>
  C5.  Under mode \<open>anywhere\<close> every location is accepted, \<open>Unknown\<close> included.  Under any
  other mode a location is accepted exactly when its lower-cased text contains
  \<open>edinburgh\<close>; so \<open>Unknown\<close> is rejected and \<open>Edinburgh, UK\<close> is accepted.
\<close>

theorem is_nearby_location_gating:
  "(LOCATION_MODE cfg = ''anywhere'' \<longrightarrow> is_nearby cfg location \<and> is_nearby cfg ''Unknown'')
   \<and> (LOCATION_MODE cfg \<noteq> ''anywhere'' \<longrightarrow>
         (is_nearby cfg location \<longleftrightarrow> sublist ''edinburgh'' (lower location))
         \<and> \<not> is_nearby cfg ''Unknown''
         \<and> is_nearby cfg ''Edinburgh, UK'')"
proof -
  have u: "\<not> sublist ''edinburgh'' ''unknown''"
    by code_simp
  have e: "sublist ''edinburgh'' ''edinburgh, uk''"
    by code_simp
  show ?thesis
    using u e by (simp add: is_nearby_def lower_Unknown lower_Edinburgh_UK)
qed

theorem is_nearby_location_gating_witness:
  "is_nearby (shipped\<lparr>LOCATION_MODE := ''anywhere''\<rparr>) ''Leith''
   \<and> \<not> is_nearby shipped ''Leith''
   \<and> is_nearby shipped ''EDINBURGH''"
proof -
  have a: "LOCATION_MODE (shipped\<lparr>LOCATION_MODE := ''anywhere''\<rparr>) = ''anywhere''"
    by simp
  have r: "LOCATION_MODE shipped \<noteq> ''anywhere''"
    by (simp add: shipped_def)
  have l: "\<not> sublist ''edinburgh'' (lower ''Leith'')"
    by code_simp
  have e: "sublist ''edinburgh'' (lower ''EDINBURGH'')"
    by code_simp
  from is_nearby_location_gating [of "shipped\<lparr>LOCATION_MODE := ''anywhere''\<rparr>" "''Leith''"] a
  have 1: "is_nearby (shipped\<lparr>LOCATION_MODE := ''anywhere''\<rparr>) ''Leith''" by blast
  from is_nearby_location_gating [of shipped "''Leith''"] r l
  have 2: "\<not> is_nearby shipped ''Leith''" by blast
  from is_nearby_location_gating [of shipped "''EDINBURGH''"] r e
  have 3: "is_nearby shipped ''EDINBURGH''" by blast
  from 1 2 3 show ?thesis by blast
qed

lemma known_loop_iff:
  "known_loop cfg title website knowns \<longleftrightarrow>
     (\<exists>known\<in>set knowns.
        (if website = Some ''ebay'' then EBAY_RATIO cfg else GUMTREE_RATIO cfg)
          < ratio title (lower known))"
  by (induction knowns) (auto simp: Let_def)

lemma keyword_loop_iff:
  "keyword_loop title kws \<longleftrightarrow> (\<exists>keyword\<in>set kws. sublist (lower keyword) title)"
  by (induction kws) auto

text \<open>
  C6.  A title that contains a configured keyword (case-insensitively) and whose ratio against
  every known term does not exceed the cutoff of the website matches exactly when the website
  is \<open>gumtree\<close>: the keyword loop runs for no other website.
\<close>

theorem is_match_keyword_path:
  assumes "\<exists>keyword\<in>set (SEARCH_KEYWORDS cfg). sublist (lower keyword) (lower title)"
      and "\<forall>known\<in>set (KNOWN_BIKES cfg).
             \<not> (if website = Some ''ebay'' then EBAY_RATIO cfg else GUMTREE_RATIO cfg)
                 < ratio (lower title) (lower known)"
  shows "is_match cfg title website \<longleftrightarrow> website = Some ''gumtree''"
  using assms by (simp add: is_match_def known_loop_iff keyword_loop_iff)

theorem is_match_keyword_path_witness:
  "is_match (shipped\<lparr>GUMTREE_RATIO := 2 / 10\<rparr>) ''BMX bike 20 inch'' (Some ''gumtree'')
   \<and> \<not> is_match shipped ''BMX bike 20 inch'' (Some ''ebay'')"
proof -
  let ?g = "shipped\<lparr>GUMTREE_RATIO := 2 / 10\<rparr>"
  have kg: "\<exists>keyword\<in>set (SEARCH_KEYWORDS ?g). sublist (lower keyword) (lower ''BMX bike 20 inch'')"
    by code_simp
  have rg: "\<forall>known\<in>set (KNOWN_BIKES ?g).
             \<not> (if Some ''gumtree'' = Some ''ebay'' then EBAY_RATIO ?g else GUMTREE_RATIO ?g)
                 < ratio (lower ''BMX bike 20 inch'') (lower known)"
    by code_simp
  have ke: "\<exists>keyword\<in>set (SEARCH_KEYWORDS shipped). sublist (lower keyword) (lower ''BMX bike 20 inch'')"
    by code_simp
  have re: "\<forall>known\<in>set (KNOWN_BIKES shipped).
             \<not> (if Some ''ebay'' = Some ''ebay'' then EBAY_RATIO shipped else GUMTREE_RATIO shipped)
                 < ratio (lower ''BMX bike 20 inch'') (lower known)"
    by code_simp
  from is_match_keyword_path [OF kg rg] is_match_keyword_path [OF ke re]
  show ?thesis by simp
qed

text \<open>
  C7.  In the loop over the known terms a term qualifies exactly when its ratio is strictly
  above the cutoff of the website.  Lowering the cutoffs keeps every match: of the loop over
  the known terms, and of \<open>is_match\<close> as a whole (the keyword loop does not read a cutoff).
\<close>

theorem is_match_threshold_monotone:
  "(known_loop cfg title website knowns \<longleftrightarrow>
      (\<exists>known\<in>set knowns.
         (if website = Some ''ebay'' then EBAY_RATIO cfg else GUMTREE_RATIO cfg)
           < ratio title (lower known)))
   \<and> (EBAY_RATIO cfg' \<le> EBAY_RATIO cfg \<and> GUMTREE_RATIO cfg' \<le> GUMTREE_RATIO cfg \<longrightarrow>
        (known_loop cfg title website knowns \<longrightarrow> known_loop cfg' title website knowns)
        \<and> (KNOWN_BIKES cfg' = KNOWN_BIKES cfg \<and> SEARCH_KEYWORDS cfg' = SEARCH_KEYWORDS cfg \<longrightarrow>
             is_match cfg title website \<longrightarrow> is_match cfg' title website))"
proof -
  let ?t = "if website = Some ''ebay'' then EBAY_RATIO cfg else GUMTREE_RATIO cfg"
  let ?t' = "if website = Some ''ebay'' then EBAY_RATIO cfg' else GUMTREE_RATIO cfg'"
  have mono: "known_loop cfg' title' website ks"
    if le: "EBAY_RATIO cfg' \<le> EBAY_RATIO cfg \<and> GUMTREE_RATIO cfg' \<le> GUMTREE_RATIO cfg"
      and k: "known_loop cfg title' website ks" for title' ks
  proof -
    from k obtain known where m: "known \<in> set ks" and r: "?t < ratio title' (lower known)"
      unfolding known_loop_iff by blast
    from le have "?t' \<le> ?t" by simp
    from this r have "?t' < ratio title' (lower known)" by (rule le_less_trans)
    with m show ?thesis unfolding known_loop_iff by blast
  qed
  have whole: "is_match cfg' title website"
    if le: "EBAY_RATIO cfg' \<le> EBAY_RATIO cfg \<and> GUMTREE_RATIO cfg' \<le> GUMTREE_RATIO cfg"
      and same: "KNOWN_BIKES cfg' = KNOWN_BIKES cfg \<and> SEARCH_KEYWORDS cfg' = SEARCH_KEYWORDS cfg"
      and m: "is_match cfg title website"
  proof (cases "known_loop cfg (lower title) website (KNOWN_BIKES cfg)")
    case True
    from mono [OF le True] same show ?thesis by (simp add: is_match_def)
  next
    case False
    with m same show ?thesis by (simp add: is_match_def split: if_splits)
  qed
  show ?thesis
    using mono whole known_loop_iff [of cfg title website knowns] by blast
qed

theorem is_match_threshold_monotone_witness:
  "EBAY_RATIO (shipped\<lparr>EBAY_RATIO := 1 / 10\<rparr>) \<le> EBAY_RATIO shipped
   \<and> is_match shipped ''New ListingTrek 820'' (Some ''ebay'')
   \<and> is_match (shipped\<lparr>EBAY_RATIO := 1 / 10\<rparr>) ''New ListingTrek 820'' (Some ''ebay'')"
proof -
  let ?c = "shipped\<lparr>EBAY_RATIO := 1 / 10\<rparr>"
  have le: "EBAY_RATIO ?c \<le> EBAY_RATIO shipped \<and> GUMTREE_RATIO ?c \<le> GUMTREE_RATIO shipped"
    by (simp add: shipped_def)
  have same: "KNOWN_BIKES ?c = KNOWN_BIKES shipped \<and> SEARCH_KEYWORDS ?c = SEARCH_KEYWORDS shipped"
    by simp
  have m: "is_match shipped ''New ListingTrek 820'' (Some ''ebay'')"
    by code_simp
  from is_match_threshold_monotone [of shipped "''New ListingTrek 820''" "Some ''ebay''" "[]" ?c]
    le same m
  have "is_match ?c ''New ListingTrek 820'' (Some ''ebay'')" by blast
  with le m show ?thesis by blast
qed

subsection \<open>The eBay loop\<close>

lemma ebay_loop_append:
  "ebay_loop ok cfg seen (xs @ ys) acc =
     (case ebay_loop ok cfg seen xs acc of Inl e \<Rightarrow> Inl e | Inr acc' \<Rightarrow> ebay_loop ok cfg seen ys acc')"
proof (induction xs arbitrary: acc)
  case Nil
  show ?case by simp
next
  case (Cons x xs)
  obtain ns ms where acc: "acc = (ns, ms)" by (cases acc)
  show ?case
    unfolding acc
    by (simp add: Cons.IH Let_def split: option.splits sum.splits)
qed

lemma ebay_loop_incomplete:
  "link_tag item = None \<or> title_tag item = None \<Longrightarrow>
   ebay_loop ok cfg seen (item # rest) acc = ebay_loop ok cfg seen rest acc"
  by (cases acc) auto

lemma ebay_loop_result:
  "ebay_loop ok cfg seen items (ns, ms) = Inr (ns', ms') \<Longrightarrow>
   ms' = ms @ emitted cfg seen (List.map_filter (complete_listing ok) items)
   \<and> ns' = ns \<union> {l. \<exists>t loc. (t, l, loc) \<in> set (List.map_filter (complete_listing ok) items) \<and> l \<notin> seen}"
proof (induction items arbitrary: ns ms)
  case Nil
  then show ?case by (simp add: emitted_def map_filter_simps)
next
  case (Cons item items)
  show ?case
  proof (cases "link_tag item = None \<or> title_tag item = None")
    case True
    then have c: "complete_listing ok item = None"
      by (auto simp: complete_listing_def split: option.splits)
    from True Cons.prems have "ebay_loop ok cfg seen items (ns, ms) = Inr (ns', ms')" by auto
    from Cons.IH [OF this] c show ?thesis by (simp add: map_filter_simps)
  next
    case False
    then obtain ho t where lt: "link_tag item = Some ho" and tt: "title_tag item = Some t" by auto
    from False Cons.prems lt obtain h where ho: "ho = Some h"
      by (cases ho) auto
    from False Cons.prems lt ho obtain l where n: "normalize_ebay_url ok h = Inr l"
      by (cases "normalize_ebay_url ok h") auto
    let ?loc = "case loc_tag item of Some x \<Rightarrow> strip x | None \<Rightarrow> ''Unknown''"
    have c: "complete_listing ok item = Some (strip t, l, ?loc)"
      by (simp add: complete_listing_def lt tt ho n)
    show ?thesis
    proof (cases "l \<in> seen")
      case True
      with Cons.prems lt tt ho n have "ebay_loop ok cfg seen items (ns, ms) = Inr (ns', ms')"
        by simp
      from Cons.IH [OF this] c True show ?thesis
        by (auto simp: map_filter_simps emitted_def)
    next
      case nseen: False
      let ?ms = "if is_match cfg (strip t) (Some ''ebay'') \<and> is_nearby cfg ?loc
                 then ms @ [(drop 11 (strip t), l)] else ms"
      from nseen Cons.prems lt tt ho n
      have "ebay_loop ok cfg seen items (insert l ns, ?ms) = Inr (ns', ms')"
        by (simp add: Let_def)
      from Cons.IH [OF this] c nseen show ?thesis
        by (auto simp: map_filter_simps emitted_def)
    qed
  qed
qed

text \<open>
  The guard of the loop.  An element of the eBay page without a link tag or without a title
  tag is passed over: the run of \<open>process_ebay\<close> on a page that holds it, be it an
  exception or the matches and the saved set, is the run on the page without it; alone, it
  leaves the accumulated set and matches as they are.
\<close>

theorem process_ebay_skips_incomplete:
  assumes "link_tag item = None \<or> title_tag item = None"
      and "ebay_page w = Inr (xs @ item # ys)"
  shows "process_ebay ok cfg w st = process_ebay ok cfg (w\<lparr>ebay_page := Inr (xs @ ys)\<rparr>) st
         \<and> ebay_loop ok cfg seen [item] acc = Inr acc"
proof -
  have eq: "ebay_loop ok cfg seen' (xs @ item # ys) acc' = ebay_loop ok cfg seen' (xs @ ys) acc'"
    for seen' acc'
    using assms(1) by (simp add: ebay_loop_append ebay_loop_incomplete split: sum.splits)
  have one: "ebay_loop ok cfg seen [item] acc = Inr acc"
    using assms(1) by (simp add: ebay_loop_incomplete)
  have "process_ebay ok cfg w st = process_ebay ok cfg (w\<lparr>ebay_page := Inr (xs @ ys)\<rparr>) st"
    by (simp add: process_ebay_def assms(2) eq cong: sum.case_cong)
  with one show ?thesis by simp
qed

theorem process_ebay_skips_incomplete_witness:
  "process_ebay (\<lambda>_. True) shipped
     \<lparr>ebay_page = Inr [\<lparr>link_tag = None, title_tag = Some ''Trek 820'', loc_tag = None\<rparr>],
      gumtree_page = Inr []\<rparr>
     \<lparr>disk = \<lparr>SEEN_EBAY = None, SEEN_GUMTREE = None\<rparr>, ebay_matches = [], gumtree_matches = []\<rparr>
   = process_ebay (\<lambda>_. True) shipped \<lparr>ebay_page = Inr [], gumtree_page = Inr []\<rparr>
       \<lparr>disk = \<lparr>SEEN_EBAY = None, SEEN_GUMTREE = None\<rparr>, ebay_matches = [], gumtree_matches = []\<rparr>"
proof -
  let ?item = "\<lparr>link_tag = None, title_tag = Some ''Trek 820'', loc_tag = None\<rparr>"
  let ?w = "\<lparr>ebay_page = Inr [?item], gumtree_page = Inr []\<rparr>"
  let ?st = "\<lparr>disk = \<lparr>SEEN_EBAY = None, SEEN_GUMTREE = None\<rparr>,
              ebay_matches = [], gumtree_matches = []\<rparr>"
  have i: "link_tag ?item = None \<or> title_tag ?item = None" by simp
  have p: "ebay_page ?w = Inr ([] @ ?item # [])" by simp
  from process_ebay_skips_incomplete [OF i p, of "\<lambda>_. True" shipped ?st "{}" "({}, [])"]
  show ?thesis by simp
qed

text \<open>
  C8 does not hold of a listing whose link tag is there but has no \<^verbatim>\<open>href\<close>.  It has no
  link to take an identity from, yet it passes the guard, and \<^verbatim>\<open>link_tag["href"]\<close> raises:
  the run ends with \<^verbatim>\<open>KeyError\<close> and nothing is saved, where the run on the page without
  that listing emits the other listing and saves its identity.
\<close>

theorem ebay_link_without_href_raises:
  "process_ebay (\<lambda>_. True) shipped
     \<lparr>ebay_page =
        Inr [\<lparr>link_tag = Some None, title_tag = Some ''New ListingTrek 820'',
              loc_tag = Some ''Edinburgh''\<rparr>,
             \<lparr>link_tag = Some (Some ''https://www.ebay.co.uk/itm/1?hash=a''),
              title_tag = Some ''New ListingTrek 820'', loc_tag = Some ''Edinburgh''\<rparr>],
      gumtree_page = Inr []\<rparr>
     \<lparr>disk = \<lparr>SEEN_EBAY = None, SEEN_GUMTREE = None\<rparr>, ebay_matches = [], gumtree_matches = []\<rparr>
   = Inl KeyError
   \<and> process_ebay (\<lambda>_. True) shipped
       \<lparr>ebay_page =
          Inr [\<lparr>link_tag = Some (Some ''https://www.ebay.co.uk/itm/1?hash=a''),
                title_tag = Some ''New ListingTrek 820'', loc_tag = Some ''Edinburgh''\<rparr>],
        gumtree_page = Inr []\<rparr>
       \<lparr>disk = \<lparr>SEEN_EBAY = None, SEEN_GUMTREE = None\<rparr>, ebay_matches = [], gumtree_matches = []\<rparr>
     = Inr \<lparr>disk = \<lparr>SEEN_EBAY = Some (StringArray {''https://www.ebay.co.uk/itm/1''}),
                    SEEN_GUMTREE = None\<rparr>,
            ebay_matches = [(''Trek 820'', ''https://www.ebay.co.uk/itm/1'')],
            gumtree_matches = []\<rparr>"
  by code_simp

text \<open>
  C10.  The matches a completed run of the eBay loop adds are those of \<open>emitted\<close>: the match
  is decided on the whole stripped title, and the title that is emitted is that title without
  its first 11 characters, whatever they are.
\<close>

theorem ebay_trim_after_match:
  assumes "ebay_loop ok cfg seen items (ns, ms) = Inr (ns', ms')"
  shows "ms' = ms @ emitted cfg seen (List.map_filter (complete_listing ok) items)"
  using ebay_loop_result [OF assms] by simp

theorem ebay_trim_after_match_witness:
  "emitted shipped {}
     (List.map_filter (complete_listing (\<lambda>_. True))
        [\<lparr>link_tag = Some (Some ''https://www.ebay.co.uk/itm/1?hash=a''),
          title_tag = Some ''Trek'', loc_tag = Some ''Edinburgh''\<rparr>])
   = [([], ''https://www.ebay.co.uk/itm/1'')]"
proof -
  let ?item = "\<lparr>link_tag = Some (Some ''https://www.ebay.co.uk/itm/1?hash=a''),
                title_tag = Some ''Trek'', loc_tag = Some ''Edinburgh''\<rparr>"
  have r: "ebay_loop (\<lambda>_. True) shipped {} [?item] ({}, [])
           = Inr ({''https://www.ebay.co.uk/itm/1''}, [([], ''https://www.ebay.co.uk/itm/1'')])"
    by code_simp
  from ebay_trim_after_match [OF r] show ?thesis by simp
qed

subsection \<open>Failures\<close>

text \<open>
  C1, as the specification has it, fails: with the shipped configuration a failed eBay
  request ends \<open>main\<close> with that exception; nothing is printed and the Gumtree file is not
  created, although the Gumtree page holds a listing that the run prints when the eBay page
  loads.
\<close>

theorem main_fetch_failure_counterexample:
  "main (\<lambda>_. True) shipped
     \<lparr>ebay_page = Inl HTTPError,
      gumtree_page = Inr [\<lparr>href = ''/p/bike-1'', aria_label = Some ''Red bike'', text_of = []\<rparr>]\<rparr>
     \<lparr>SEEN_EBAY = None, SEEN_GUMTREE = None\<rparr>
   = \<lparr>raised = Some HTTPError, printed = [], left = \<lparr>SEEN_EBAY = None, SEEN_GUMTREE = None\<rparr>\<rparr>
   \<and> printed (main (\<lambda>_. True) shipped
        \<lparr>ebay_page = Inr [],
         gumtree_page = Inr [\<lparr>href = ''/p/bike-1'', aria_label = Some ''Red bike'', text_of = []\<rparr>]\<rparr>
        \<lparr>SEEN_EBAY = None, SEEN_GUMTREE = None\<rparr>) \<noteq> []"
  by code_simp

text \<open>
  C1, amended.  A failed request ends the run with its exception.  When the eBay request
  fails, \<open>main\<close> has done nothing but clear the files if so configured: Gumtree is not
  processed and nothing is printed.  When the Gumtree request fails after the eBay stage has
  completed or was disabled, \<open>main\<close> raises too and prints nothing; the files are as the
  eBay stage left them.
\<close>

theorem main_fetch_failure_propagates:
  "(ENABLE_EBAY cfg \<and> ebay_page w = Inl e \<longrightarrow>
      main ok cfg w fs =
        \<lparr>raised = Some e, printed = [],
         left = (if CLEAR_CACHE_ON_START cfg then clear_cache fs else fs)\<rparr>)
   \<and> (ENABLE_GUMTREE cfg \<and> gumtree_page w = Inl e
        \<and> (if ENABLE_EBAY cfg
            then process_ebay ok cfg w
                   \<lparr>disk = (if CLEAR_CACHE_ON_START cfg then clear_cache fs else fs),
                    ebay_matches = [], gumtree_matches = []\<rparr>
            else Inr \<lparr>disk = (if CLEAR_CACHE_ON_START cfg then clear_cache fs else fs),
                      ebay_matches = [], gumtree_matches = []\<rparr>) = Inr st1 \<longrightarrow>
      main ok cfg w fs = \<lparr>raised = Some e, printed = [], left = disk st1\<rparr>)"
  by (simp add: main_def process_ebay_def process_gumtree_def Let_def)


theorem main_fetch_failure_propagates_witness:
  "main (\<lambda>_. True) shipped \<lparr>ebay_page = Inl ConnectionError, gumtree_page = Inr []\<rparr>
     \<lparr>SEEN_EBAY = None, SEEN_GUMTREE = Some ''x''\<rparr>
   = \<lparr>raised = Some ConnectionError, printed = [], left = \<lparr>SEEN_EBAY = None, SEEN_GUMTREE = None\<rparr>\<rparr>
   \<and> main (\<lambda>_. True) shipped \<lparr>ebay_page = Inr [], gumtree_page = Inl HTTPError\<rparr>
       \<lparr>SEEN_EBAY = None, SEEN_GUMTREE = None\<rparr>
     = \<lparr>raised = Some HTTPError, printed = [],
        left = \<lparr>SEEN_EBAY = Some (StringArray {}), SEEN_GUMTREE = None\<rparr>\<rparr>"
proof -
  let ?w1 = "\<lparr>ebay_page = Inl ConnectionError, gumtree_page = Inr []\<rparr>"
  let ?w2 = "\<lparr>ebay_page = Inr [], gumtree_page = Inl HTTPError\<rparr>"
  let ?fs1 = "\<lparr>SEEN_EBAY = None, SEEN_GUMTREE = Some ''x''\<rparr>"
  let ?fs2 = "\<lparr>SEEN_EBAY = None, SEEN_GUMTREE = None\<rparr>"
  let ?st1 = "\<lparr>disk = \<lparr>SEEN_EBAY = Some (StringArray {}), SEEN_GUMTREE = None\<rparr>,
               ebay_matches = [], gumtree_matches = []\<rparr>"
  have e: "ENABLE_EBAY shipped \<and> ebay_page ?w1 = Inl ConnectionError"
    by (simp add: shipped_def)
  have c: "(if CLEAR_CACHE_ON_START shipped then clear_cache ?fs1 else ?fs1) = ?fs2"
    by (simp add: shipped_def clear_cache_def)
  have g: "ENABLE_GUMTREE shipped \<and> gumtree_page ?w2 = Inl HTTPError
           \<and> (if ENABLE_EBAY shipped
               then process_ebay (\<lambda>_. True) shipped ?w2
                      \<lparr>disk = (if CLEAR_CACHE_ON_START shipped then clear_cache ?fs2 else ?fs2),
                       ebay_matches = [], gumtree_matches = []\<rparr>
               else Inr \<lparr>disk = (if CLEAR_CACHE_ON_START shipped then clear_cache ?fs2 else ?fs2),
                         ebay_matches = [], gumtree_matches = []\<rparr>) = Inr ?st1"
    by (simp add: shipped_def clear_cache_def process_ebay_def load_ebay_seen_def
          save_ebay_seen_def)
  from main_fetch_failure_propagates [of shipped ?w1 ConnectionError "\<lambda>_. True" ?fs1] e c
  have 1: "main (\<lambda>_. True) shipped ?w1 ?fs1
           = \<lparr>raised = Some ConnectionError, printed = [], left = ?fs2\<rparr>"
    by simp
  from main_fetch_failure_propagates [of shipped ?w2 HTTPError "\<lambda>_. True" ?fs2 ?st1] g
  have 2: "main (\<lambda>_. True) shipped ?w2 ?fs2
           = \<lparr>raised = Some HTTPError, printed = [], left = disk ?st1\<rparr>"
    by blast
  from 1 2 show ?thesis by simp
qed

text \<open>
  C4, as the specification has it, fails: \<^verbatim>\<open>load_ebay_seen\<close> on a file that is not JSON raises
  instead of returning the empty set, and \<^verbatim>\<open>load_gumtree_seen\<close> on a file cut off in the
  middle of a line returns the set with the piece of the line.
\<close>

theorem load_seen_malformed_counterexample:
  "load_ebay_seen \<lparr>SEEN_EBAY = Some NotJson, SEEN_GUMTREE = None\<rparr> = Inl JSONDecodeError
   \<and> load_gumtree_seen \<lparr>SEEN_EBAY = None, SEEN_GUMTREE = Some ''https://www.gumtree.com/p/bi''\<rparr>
     = {''https://www.gumtree.com/p/bi''}"
  by code_simp

text \<open>
  C4, amended.  A missing file loads as the empty set, in both stores.  An eBay file that is
  not JSON makes \<^verbatim>\<open>load_ebay_seen\<close> raise, and a run that keeps the cache and reaches the eBay
  stage ends with that exception, the files untouched.  \<^verbatim>\<open>load_gumtree_seen\<close> raises on no
  text: it returns the stripped lines of whatever the file holds.
\<close>

theorem load_seen_missing_or_malformed:
  "(SEEN_EBAY fs = None \<longrightarrow> load_ebay_seen fs = Inr {})
   \<and> (SEEN_GUMTREE fs = None \<longrightarrow> load_gumtree_seen fs = {})
   \<and> (SEEN_EBAY fs = Some NotJson \<longrightarrow>
        load_ebay_seen fs = Inl JSONDecodeError
        \<and> (ENABLE_EBAY cfg \<and> \<not> CLEAR_CACHE_ON_START cfg \<and> ebay_page w = Inr items \<longrightarrow>
             main ok cfg w fs = \<lparr>raised = Some JSONDecodeError, printed = [], left = fs\<rparr>))
   \<and> (SEEN_GUMTREE fs = Some content \<longrightarrow>
        load_gumtree_seen fs = set (map strip (readlines content)))"
  by (simp add: load_ebay_seen_def load_gumtree_seen_def main_def process_ebay_def)


theorem load_seen_missing_or_malformed_witness:
  "load_gumtree_seen \<lparr>SEEN_EBAY = Some NotJson, SEEN_GUMTREE = None\<rparr> = {}
   \<and> load_ebay_seen \<lparr>SEEN_EBAY = None, SEEN_GUMTREE = Some ''a''\<rparr> = Inr {}
   \<and> load_gumtree_seen \<lparr>SEEN_EBAY = None, SEEN_GUMTREE = Some ''a''\<rparr> = {''a''}
   \<and> main (\<lambda>_. True) (shipped\<lparr>CLEAR_CACHE_ON_START := False\<rparr>)
       \<lparr>ebay_page = Inr [], gumtree_page = Inr []\<rparr> \<lparr>SEEN_EBAY = Some NotJson, SEEN_GUMTREE = None\<rparr>
     = \<lparr>raised = Some JSONDecodeError, printed = [],
        left = \<lparr>SEEN_EBAY = Some NotJson, SEEN_GUMTREE = None\<rparr>\<rparr>"
proof -
  let ?fs = "\<lparr>SEEN_EBAY = Some NotJson, SEEN_GUMTREE = None\<rparr>"
  let ?fs' = "\<lparr>SEEN_EBAY = None, SEEN_GUMTREE = Some ''a''\<rparr>"
  let ?cfg = "shipped\<lparr>CLEAR_CACHE_ON_START := False\<rparr>"
  let ?w = "\<lparr>ebay_page = Inr [], gumtree_page = Inr []\<rparr>"
  have h: "SEEN_GUMTREE ?fs = None \<and> SEEN_EBAY ?fs = Some NotJson
           \<and> ENABLE_EBAY ?cfg \<and> \<not> CLEAR_CACHE_ON_START ?cfg \<and> ebay_page ?w = Inr []"
    by (simp add: shipped_def)
  have h': "SEEN_EBAY ?fs' = None \<and> SEEN_GUMTREE ?fs' = Some ''a''" by simp
  have s: "set (map strip (readlines ''a'')) = {''a''}" by code_simp
  from load_seen_missing_or_malformed [of ?fs ?cfg ?w "[]" "\<lambda>_. True"] h
  have 1: "load_gumtree_seen ?fs = {}
           \<and> main (\<lambda>_. True) ?cfg ?w ?fs
             = \<lparr>raised = Some JSONDecodeError, printed = [], left = ?fs\<rparr>"
    by blast
  from load_seen_missing_or_malformed [of ?fs' ?cfg ?w "[]" "\<lambda>_. True" "''a''"] h' s
  have 2: "load_ebay_seen ?fs' = Inr {} \<and> load_gumtree_seen ?fs' = {''a''}"
    by simp
  from 1 2 show ?thesis by blast
qed

subsection \<open>Seen identities\<close>

lemma gumtree_loop_result:
  "gumtree_loop cfg seen items (fs, ms) = (fs', ms') \<Longrightarrow>
   \<exists>new. ms' = ms @ new \<and> snd ` set new \<subseteq> listing_link ` set items - seen"
proof (induction items arbitrary: fs ms)
  case Nil
  then show ?case by simp
next
  case (Cons item items)
  show ?case
  proof (cases "listing_link item \<in> seen")
    case True
    with Cons.prems have "gumtree_loop cfg seen items (fs, ms) = (fs', ms')" by simp
    from Cons.IH [OF this] show ?thesis by auto
  next
    case False
    let ?ms = "if is_match cfg (listing_title item) (Some ''gumtree'')
               then ms @ [(listing_title item, listing_link item)] else ms"
    from False Cons.prems
    have "gumtree_loop cfg seen items (mark_gumtree_seen (listing_link item) fs, ?ms) = (fs', ms')"
      by simp
    from Cons.IH [OF this] obtain new where
      n: "ms' = ?ms @ new" "snd ` set new \<subseteq> listing_link ` set items - seen" by blast
    show ?thesis
    proof (cases "is_match cfg (listing_title item) (Some ''gumtree'')")
      case True
      with n have "ms' = ms @ ((listing_title item, listing_link item) # new)" by simp
      moreover have "snd ` set ((listing_title item, listing_link item) # new)
                     \<subseteq> listing_link ` set (item # items) - seen"
        using n(2) False by auto
      ultimately show ?thesis by blast
    next
      case nm: False
      with n have "ms' = ms @ new" by simp
      moreover have "snd ` set new \<subseteq> listing_link ` set (item # items) - seen"
        using n(2) by auto
      ultimately show ?thesis by blast
    qed
  qed
qed

lemma emitted_not_seen: "snd ` set (emitted cfg seen ls) \<inter> seen = {}"
  by (auto simp: emitted_def)

lemma emitted_recorded:
  "snd ` set (emitted cfg seen ls) \<subseteq> {l. \<exists>t loc. (t, l, loc) \<in> set ls \<and> l \<notin> seen}"
  by (fastforce simp: emitted_def)

text \<open>
  C2, as the specification has it, fails: the loop tests the set loaded before it, not the
  set it is adding to, so a page that lists the same link twice has the listing emitted twice
  in the one run.
\<close>

theorem ebay_duplicate_counterexample:
  "process_ebay (\<lambda>_. True) shipped
     \<lparr>ebay_page =
        Inr [\<lparr>link_tag = Some (Some ''https://www.ebay.co.uk/itm/1?hash=a''),
              title_tag = Some ''New ListingTrek 820'', loc_tag = Some ''Edinburgh''\<rparr>,
             \<lparr>link_tag = Some (Some ''https://www.ebay.co.uk/itm/1?hash=b''),
              title_tag = Some ''New ListingTrek 820'', loc_tag = Some ''Edinburgh''\<rparr>],
      gumtree_page = Inr []\<rparr>
     \<lparr>disk = \<lparr>SEEN_EBAY = None, SEEN_GUMTREE = None\<rparr>, ebay_matches = [], gumtree_matches = []\<rparr>
   = Inr \<lparr>disk = \<lparr>SEEN_EBAY = Some (StringArray {''https://www.ebay.co.uk/itm/1''}),
                  SEEN_GUMTREE = None\<rparr>,
          ebay_matches = [(''Trek 820'', ''https://www.ebay.co.uk/itm/1''),
                          (''Trek 820'', ''https://www.ebay.co.uk/itm/1'')],
          gumtree_matches = []\<rparr>"
  by code_simp

text \<open>
  C2, amended.  An identity that is in the set a run loads is not emitted by that run, for
  either source.  For eBay, the set loaded after a completed run is the set loaded before it
  together with the identity of every complete listing of the page, matched or not; so no
  identity that a run loaded or processed is emitted by a later run, as long as the file is
  not cleared.  (What a later Gumtree run loads is the stripped lines of the file; the
  statement says nothing of it.)
\<close>

theorem loaded_identity_not_emitted:
  "(load_ebay_seen (disk st) = Inr seen \<and> ebay_page w = Inr items
    \<and> process_ebay ok cfg w st = Inr st' \<longrightarrow>
      (\<exists>new. ebay_matches st' = ebay_matches st @ new
             \<and> snd ` set new \<inter> seen = {}
             \<and> snd ` set new
                 \<subseteq> {l. \<exists>t loc. (t, l, loc) \<in> set (List.map_filter (complete_listing ok) items)}
             \<and> load_ebay_seen (disk st')
                 = Inr (seen \<union> {l. \<exists>t loc. (t, l, loc)
                                    \<in> set (List.map_filter (complete_listing ok) items)})))
   \<and> (process_gumtree cfg w st = Inr st'' \<longrightarrow>
        (\<exists>new. gumtree_matches st'' = gumtree_matches st @ new
               \<and> snd ` set new \<inter> load_gumtree_seen (disk st) = {}))"
proof (intro conjI impI)
  assume a: "load_ebay_seen (disk st) = Inr seen \<and> ebay_page w = Inr items
             \<and> process_ebay ok cfg w st = Inr st'"
  then have p: "ebay_page w = Inr items" by simp
  from a p obtain ns ms where
    l: "ebay_loop ok cfg seen items (seen, ebay_matches st) = Inr (ns, ms)"
    and st': "st' = st\<lparr>disk := save_ebay_seen ns (disk st), ebay_matches := ms\<rparr>"
    by (cases "ebay_loop ok cfg seen items (seen, ebay_matches st)")
       (auto simp: process_ebay_def)
  let ?ls = "List.map_filter (complete_listing ok) items"
  let ?ids = "{l. \<exists>t loc. (t, l, loc) \<in> set ?ls}"
  from ebay_loop_result [OF l] have
    ms: "ms = ebay_matches st @ emitted cfg seen ?ls"
    and ns: "ns = seen \<union> {l. \<exists>t loc. (t, l, loc) \<in> set ?ls \<and> l \<notin> seen}"
    by simp_all
  have ns': "ns = seen \<union> ?ids" unfolding ns by blast
  have 1: "ebay_matches st' = ebay_matches st @ emitted cfg seen ?ls"
    using st' ms by simp
  have 2: "snd ` set (emitted cfg seen ?ls) \<inter> seen = {}"
    by (rule emitted_not_seen)
  have 3: "snd ` set (emitted cfg seen ?ls) \<subseteq> ?ids"
    using emitted_recorded [of cfg seen ?ls] by blast
  have 4: "load_ebay_seen (disk st') = Inr (seen \<union> ?ids)"
    using st' ns' by (simp add: load_ebay_seen_def save_ebay_seen_def)
  from 1 2 3 4
  show "\<exists>new. ebay_matches st' = ebay_matches st @ new
             \<and> snd ` set new \<inter> seen = {}
             \<and> snd ` set new \<subseteq> ?ids
             \<and> load_ebay_seen (disk st') = Inr (seen \<union> ?ids)"
    by blast
next
  assume a: "process_gumtree cfg w st = Inr st''"
  then obtain anchors where p: "gumtree_page w = Inr anchors"
    by (cases "gumtree_page w") (auto simp: process_gumtree_def)
  obtain fs' ms' where
    g: "gumtree_loop cfg (load_gumtree_seen (disk st)) (parse_gumtree anchors)
          (disk st, gumtree_matches st) = (fs', ms')"
    by (cases "gumtree_loop cfg (load_gumtree_seen (disk st)) (parse_gumtree anchors)
          (disk st, gumtree_matches st)")
  from a p g have st'': "gumtree_matches st'' = ms'"
    by (auto simp: process_gumtree_def Let_def)
  from gumtree_loop_result [OF g] st''
  show "\<exists>new. gumtree_matches st'' = gumtree_matches st @ new
               \<and> snd ` set new \<inter> load_gumtree_seen (disk st) = {}"
    by blast
qed

theorem loaded_identity_not_emitted_witness:
  "(let page = [\<lparr>link_tag = Some (Some ''https://www.ebay.co.uk/itm/1?hash=a''),
                  title_tag = Some ''New ListingTrek 820'', loc_tag = Some ''Edinburgh''\<rparr>,
                 \<lparr>link_tag = Some (Some ''https://www.ebay.co.uk/itm/2?hash=b''),
                  title_tag = Some ''New ListingTrek 820'', loc_tag = Some ''Edinburgh''\<rparr>,
                 \<lparr>link_tag = Some (Some ''https://www.ebay.co.uk/itm/3?hash=c''),
                  title_tag = Some ''BMX bike 20 inch'', loc_tag = Some ''Edinburgh''\<rparr>];
        w = \<lparr>ebay_page = Inr page,
             gumtree_page = Inr [\<lparr>href = ''/p/bike-1'', aria_label = Some ''Red bike'',
                                  text_of = []\<rparr>]\<rparr>;
        st = \<lparr>disk = \<lparr>SEEN_EBAY = Some (StringArray {''https://www.ebay.co.uk/itm/2''}),
                       SEEN_GUMTREE = Some (''https://www.gumtree.com/p/bike-1'' @ [CHR 0x0A])\<rparr>,
              ebay_matches = [], gumtree_matches = []\<rparr>;
        st' = \<lparr>disk = \<lparr>SEEN_EBAY = Some (StringArray {''https://www.ebay.co.uk/itm/1'',
                                                      ''https://www.ebay.co.uk/itm/2'',
                                                      ''https://www.ebay.co.uk/itm/3''}),
                        SEEN_GUMTREE = Some (''https://www.gumtree.com/p/bike-1'' @ [CHR 0x0A])\<rparr>,
               ebay_matches = [(''Trek 820'', ''https://www.ebay.co.uk/itm/1'')],
               gumtree_matches = []\<rparr>
    in process_ebay (\<lambda>_. True) shipped w st = Inr st'
       \<and> process_gumtree shipped w st = Inr st
       \<and> (\<exists>new. ebay_matches st' = ebay_matches st @ new
              \<and> snd ` set new \<inter> {''https://www.ebay.co.uk/itm/2''} = {}
              \<and> snd ` set new
                  \<subseteq> {l. \<exists>t loc. (t, l, loc)
                              \<in> set (List.map_filter (complete_listing (\<lambda>_. True)) page)}
              \<and> load_ebay_seen (disk st')
                  = Inr ({''https://www.ebay.co.uk/itm/2''}
                         \<union> {l. \<exists>t loc. (t, l, loc)
                                  \<in> set (List.map_filter (complete_listing (\<lambda>_. True)) page)}))
       \<and> (\<exists>new. gumtree_matches st = gumtree_matches st @ new
              \<and> snd ` set new \<inter> load_gumtree_seen (disk st) = {}))"
proof -
  let ?page = "[\<lparr>link_tag = Some (Some ''https://www.ebay.co.uk/itm/1?hash=a''),
                  title_tag = Some ''New ListingTrek 820'', loc_tag = Some ''Edinburgh''\<rparr>,
                 \<lparr>link_tag = Some (Some ''https://www.ebay.co.uk/itm/2?hash=b''),
                  title_tag = Some ''New ListingTrek 820'', loc_tag = Some ''Edinburgh''\<rparr>,
                 \<lparr>link_tag = Some (Some ''https://www.ebay.co.uk/itm/3?hash=c''),
                  title_tag = Some ''BMX bike 20 inch'', loc_tag = Some ''Edinburgh''\<rparr>]"
  let ?w = "\<lparr>ebay_page = Inr ?page,
             gumtree_page = Inr [\<lparr>href = ''/p/bike-1'', aria_label = Some ''Red bike'',
                                  text_of = []\<rparr>]\<rparr>"
  let ?st = "\<lparr>disk = \<lparr>SEEN_EBAY = Some (StringArray {''https://www.ebay.co.uk/itm/2''}),
                       SEEN_GUMTREE = Some (''https://www.gumtree.com/p/bike-1'' @ [CHR 0x0A])\<rparr>,
              ebay_matches = [], gumtree_matches = []\<rparr>"
  let ?st' = "\<lparr>disk = \<lparr>SEEN_EBAY = Some (StringArray {''https://www.ebay.co.uk/itm/1'',
                                                      ''https://www.ebay.co.uk/itm/2'',
                                                      ''https://www.ebay.co.uk/itm/3''}),
                        SEEN_GUMTREE = Some (''https://www.gumtree.com/p/bike-1'' @ [CHR 0x0A])\<rparr>,
               ebay_matches = [(''Trek 820'', ''https://www.ebay.co.uk/itm/1'')],
               gumtree_matches = []\<rparr>"
  have s: "load_ebay_seen (disk ?st) = Inr {''https://www.ebay.co.uk/itm/2''}"
    by (simp add: load_ebay_seen_def)
  have p: "ebay_page ?w = Inr ?page"
    by simp
  have e: "process_ebay (\<lambda>_. True) shipped ?w ?st = Inr ?st'"
    by code_simp
  have g: "process_gumtree shipped ?w ?st = Inr ?st"
    by code_simp
  note t = loaded_identity_not_emitted
             [of ?st "{''https://www.ebay.co.uk/itm/2''}" ?w ?page "\<lambda>_. True" shipped ?st' ?st]
  note t1 = t [THEN conjunct1, rule_format, OF conjI [OF s conjI [OF p e]]]
  note t2 = t [THEN conjunct2, rule_format, OF g]
  show ?thesis
    unfolding Let_def using e g t1 t2 by (intro conjI)
qed

text \<open>
  C3 does not hold of the Gumtree pipeline.  The file is written with the link as it is and
  read back with each line stripped, so a link that ends in white space is never found in
  the loaded set: the second run on the same page, with the file of the first, emits the
  listing again.
\<close>

theorem gumtree_rerun_emits_again:
  "(case process_gumtree shipped
           \<lparr>ebay_page = Inr [],
            gumtree_page = Inr [\<lparr>href = ''/p/bike-1 '', aria_label = Some ''Red bike'',
                                 text_of = []\<rparr>]\<rparr>
           \<lparr>disk = \<lparr>SEEN_EBAY = None, SEEN_GUMTREE = None\<rparr>,
            ebay_matches = [], gumtree_matches = []\<rparr> of
      Inl e \<Rightarrow> None
    | Inr st1 \<Rightarrow>
        (case process_gumtree shipped
                \<lparr>ebay_page = Inr [],
                 gumtree_page = Inr [\<lparr>href = ''/p/bike-1 '', aria_label = Some ''Red bike'',
                                      text_of = []\<rparr>]\<rparr>
                \<lparr>disk = disk st1, ebay_matches = [], gumtree_matches = []\<rparr> of
           Inl e \<Rightarrow> None
         | Inr st2 \<Rightarrow> Some (load_gumtree_seen (disk st1), gumtree_matches st2)))
   = Some ({''https://www.gumtree.com/p/bike-1''},
           [(''Red bike'', ''https://www.gumtree.com/p/bike-1 '')])"
  by code_simp

subsection \<open>Link normalisation\<close>













end
